theory Spec2Isabelle
  imports Complex_Main
begin

section \<open>Data model\<close>

text \<open>
  The generator builds every table as a list of Python dictionaries and hands it to the
  CSV sink. A dictionary is an association list in insertion order; a cell is an integer,
  a string, a price (a float literal that is only stored and written, never computed
  with) or a timestamp. A naive \<open>datetime\<close> is the number of microseconds since
  0001-01-01 00:00:00, so \<open>timedelta(days=k)\<close> is \<open>k * 86400000000\<close>.
\<close>

datatype error = ValueError | OverflowError

type_synonym datetime = int

datatype val = VInt int | VStr string | VFloat real | VTime datetime

type_synonym row = "(string \<times> val) list"

text \<open>The \<open>Product\<close> dataclass.\<close>

record Product =
  name :: string
  price :: real

text \<open>
  A written CSV file: the header line (the field names) and the data lines, each the list
  of cells in header order. Rendering a cell as text is left to the \<open>csv\<close> module.
\<close>

record csv_file =
  csv_fields :: "string list"
  csv_lines :: "val list list"

text \<open>
  The world a generator runs in: the files of the output directory, the process-wide
  random source as the stream of its raw draws still to come, and the locale tables from
  which the \<open>Faker\<close> library picks a city and a country. The model describes runs in which
  the operating system performs every file operation it is asked for.
\<close>

record world =
  files :: "string \<rightharpoonup> csv_file"
  entropy :: "nat \<Rightarrow> nat"
  city_names :: "nat \<Rightarrow> string"
  country_names :: "nat \<Rightarrow> string"

subsection \<open>Python dictionaries and ranges\<close>

text \<open>\<open>d[k] = v\<close>: an existing key keeps its position, a new key goes last.\<close>

fun dict_set :: "row \<Rightarrow> string \<Rightarrow> val \<Rightarrow> row" where
  "dict_set [] k v = [(k, v)]"
| "dict_set ((k', v') # d) k v =
     (if k' = k then (k, v) # d else (k', v') # dict_set d k v)"

text \<open>A dictionary display \<open>{k1: v1, k2: v2, ...}\<close>.\<close>

definition dict :: "(string \<times> val) list \<Rightarrow> row" where
  "dict kvs = foldl (\<lambda>d (k, v). dict_set d k v) [] kvs"

text \<open>\<open>d.get(k, default)\<close>.\<close>

definition dict_get :: "row \<Rightarrow> string \<Rightarrow> val \<Rightarrow> val" where
  "dict_get d k dflt = (case map_of d k of Some v \<Rightarrow> v | None \<Rightarrow> dflt)"

text \<open>\<open>range(0, n)\<close>: empty when \<open>n \<le> 0\<close>.\<close>

definition range0 :: "int \<Rightarrow> int list" where
  "range0 n = map int [0..<nat n]"

subsection \<open>The random library\<close>

text \<open>
  Drawing from the random source takes the next raw value of the stream.
  \<open>random_int(lo, hi)\<close> is \<open>randrange(lo, hi + 1)\<close>: it raises \<open>ValueError\<close> on an empty
  range, before drawing, and otherwise returns a value of \<open>lo..hi\<close>; every value of the
  range is returned for some raw draw. \<open>date_time_between\<close> returns a point of the
  window, or a point within a second after the start when the window is at most a second
  wide; it never raises. \<open>city\<close> and \<open>country\<close> pick an entry of the locale table.
  Each call is modelled as taking one raw draw; no property below depends on how many
  draws a call takes.
\<close>

definition advance :: "world \<Rightarrow> world" where
  "advance w = w\<lparr>entropy := (\<lambda>i. entropy w (Suc i))\<rparr>"

definition random_int :: "int \<Rightarrow> int \<Rightarrow> world \<Rightarrow> (error + int) \<times> world" where
  "random_int lo hi w =
     (if hi < lo then (Inl ValueError, w)
      else (Inr (lo + int (entropy w 0) mod (hi - lo + 1)), advance w))"

definition date_time_between :: "datetime \<Rightarrow> datetime \<Rightarrow> world \<Rightarrow> datetime \<times> world" where
  "date_time_between start_date end_date w =
     (if end_date - start_date \<le> 1000000
      then (start_date + int (entropy w 0) mod 1000001, advance w)
      else (start_date + int (entropy w 0) mod (end_date - start_date + 1), advance w))"

definition faker_city :: "world \<Rightarrow> string \<times> world" where
  "faker_city w = (city_names w (entropy w 0), advance w)"

definition faker_country :: "world \<Rightarrow> string \<times> world" where
  "faker_country w = (country_names w (entropy w 0), advance w)"

subsection \<open>Datetime arithmetic\<close>

text \<open>
  \<open>datetime_max\<close> is 9999-12-31 23:59:59.999999; adding a \<open>timedelta\<close> that leaves the
  representable years raises \<open>OverflowError\<close>.
\<close>

definition datetime_max :: datetime where
  "datetime_max = 315537897599999999"

definition add_days :: "datetime \<Rightarrow> int \<Rightarrow> error + datetime" where
  "add_days t days =
     (let t' = t + days * 86400000000
      in if t' < 0 \<or> datetime_max < t' then Inl OverflowError else Inr t')"

text \<open>\<open>datetime(2025, 1, 1)\<close> and \<open>datetime(2026, 1, 1)\<close>, the default window of
  \<open>generate_orders\<close>, and its default \<open>max_quantity\<close>.\<close>

definition default_start_datetime :: datetime where
  "default_start_datetime = 63871286400000000"

definition default_end_datetime :: datetime where
  "default_end_datetime = 63902822400000000"

definition default_max_quantity :: int where
  "default_max_quantity = 3"

section \<open>The CSV sink\<close>

text \<open>
  \<open>csv.DictWriter\<close> with its default \<open>extrasaction="raise"\<close> and \<open>restval=""\<close>: a row
  with a key that is no field name raises \<open>ValueError\<close>; a missing key is written as the
  empty string. The lines before a failing row stay written.
\<close>

definition dict_to_list :: "string list \<Rightarrow> row \<Rightarrow> error + val list" where
  "dict_to_list fieldnames rowdict =
     (if list_ex (\<lambda>k. k \<notin> set fieldnames) (map fst rowdict) then Inl ValueError
      else Inr (map (\<lambda>key. dict_get rowdict key (VStr [])) fieldnames))"

fun writerows :: "string list \<Rightarrow> row list \<Rightarrow> csv_file \<Rightarrow> (error + unit) \<times> csv_file" where
  "writerows fieldnames [] f = (Inr (), f)"
| "writerows fieldnames (rowdict # rowdicts) f =
     (case dict_to_list fieldnames rowdict of
        Inl e \<Rightarrow> (Inl e, f)
      | Inr line \<Rightarrow> writerows fieldnames rowdicts (f\<lparr>csv_lines := csv_lines f @ [line]\<rparr>))"

definition write_to_csv :: "string \<Rightarrow> row list \<Rightarrow> world \<Rightarrow> (error + unit) \<times> world" where
  "write_to_csv file_name rows w =
     (if length rows = 0 then (Inr (), w)
      else
        let field_names = map fst (hd rows);
            (r, f) = writerows field_names rows \<lparr>csv_fields = field_names, csv_lines = []\<rparr>
        in (r, w\<lparr>files := (files w)(file_name \<mapsto> f)\<rparr>))"

definition write_list_to_csv ::
  "string \<Rightarrow> string \<Rightarrow> string list \<Rightarrow> world \<Rightarrow> (error + unit) \<times> world" where
  "write_list_to_csv file_name field_name values w =
     (let rows = map (\<lambda>(i, item). dict [(''id'', VInt (int i + 1)), (field_name, VStr item)])
                     (List.enumerate 0 values)
      in write_to_csv file_name rows w)"

section \<open>Reference data and customers\<close>

definition generate_shipping_methods :: "world \<Rightarrow> (error + int) \<times> world" where
  "generate_shipping_methods w =
     (let methods = [''Standard'', ''Next Business Day'', ''Saturday AM'', ''Saturday PM'']
      in case write_list_to_csv ''shipping_method.csv'' ''name'' methods w of
           (Inl e, w') \<Rightarrow> (Inl e, w')
         | (Inr u, w') \<Rightarrow> (Inr (int (length methods)), w'))"

definition generate_couriers :: "world \<Rightarrow> (error + int) \<times> world" where
  "generate_couriers w =
     (let couriers = [''Cheap & Cheerful Delivery'', ''Speedy Parcel Delivery'',
                      ''Local Delivery Partners'']
      in case write_list_to_csv ''courier.csv'' ''name'' couriers w of
           (Inl e, w') \<Rightarrow> (Inl e, w')
         | (Inr u, w') \<Rightarrow> (Inr (int (length couriers)), w'))"

fun customers_loop :: "int list \<Rightarrow> row list \<Rightarrow> world \<Rightarrow> row list \<times> world" where
  "customers_loop [] customers w = (customers, w)"
| "customers_loop (i # rest) customers w =
     (let (city, w1) = faker_city w;
          (country, w2) = faker_country w1
      in customers_loop rest
           (customers @ [dict [(''id'', VInt (i + 1)), (''city'', VStr city),
                               (''country'', VStr country)]]) w2)"

text \<open>\<open>generate_customers\<close> returns \<open>None\<close>: the unit value.\<close>

definition generate_customers :: "int \<Rightarrow> world \<Rightarrow> (error + unit) \<times> world" where
  "generate_customers number_of_customers w =
     (let (customers, w') = customers_loop (range0 number_of_customers) [] w
      in write_to_csv ''customer.csv'' customers w')"

section \<open>The catalog\<close>

definition get_product_hierarchy :: "(string \<times> (string \<times> Product list) list) list" where
  "get_product_hierarchy =
     [(''Home & Garden'',
        [(''Garden Furniture'',
           [\<lparr>name = ''Table and chair set'', price = 299.99\<rparr>,
            \<lparr>name = ''Patio Heater'', price = 199.99\<rparr>]),
         (''Home Furnishing'',
           [\<lparr>name = ''Curtains'', price = 89.99\<rparr>,
            \<lparr>name = ''Cushions'', price = 19.99\<rparr>])]),
      (''Electronics'',
        [(''TV'',
           [\<lparr>name = ''50 inch 4K TV'', price = 399.99\<rparr>,
            \<lparr>name = ''TV Soundbar'', price = 99.99\<rparr>]),
         (''Audio'',
           [\<lparr>name = ''Portable Bluetooth Speaker'', price = 49.99\<rparr>,
            \<lparr>name = ''Premium Smart Speaker'', price = 399.99\<rparr>])]),
      (''Clothing'',
        [(''Menswear'',
           [\<lparr>name = ''Mens Jeans'', price = 39.99\<rparr>,
            \<lparr>name = ''Mens Shorts'', price = 19.99\<rparr>]),
         (''Womenswear'',
           [\<lparr>name = ''Womens Jeans'', price = 39.99\<rparr>,
            \<lparr>name = ''Blouse'', price = 24.99\<rparr>])])]"

text \<open>The three nested loops of \<open>generate_products\<close>, innermost first. Each carries the
  counters and the lists it updates.\<close>

fun products_loop :: "Product list \<Rightarrow> int \<Rightarrow> int \<times> row list \<Rightarrow> int \<times> row list" where
  "products_loop [] sub_category_id (product_id, products) = (product_id, products)"
| "products_loop (product # product_set) sub_category_id (product_id, products) =
     products_loop product_set sub_category_id
       (product_id + 1,
        products @ [dict [(''id'', VInt product_id), (''sub_category_id'', VInt sub_category_id),
                          (''name'', VStr (name product)), (''price'', VFloat (price product))]])"

fun sub_categories_loop ::
  "(string \<times> Product list) list \<Rightarrow> int \<Rightarrow> int \<times> int \<times> row list \<times> row list
     \<Rightarrow> int \<times> int \<times> row list \<times> row list" where
  "sub_categories_loop [] category_id (sub_category_id, product_id, sub_categories, products) =
     (sub_category_id, product_id, sub_categories, products)"
| "sub_categories_loop ((sub_category_name, product_set) # rest) category_id
       (sub_category_id, product_id, sub_categories, products) =
     (let sub_categories' =
            sub_categories @ [dict [(''id'', VInt sub_category_id),
                                    (''category_id'', VInt category_id),
                                    (''name'', VStr sub_category_name)]];
          (product_id', products') =
            products_loop product_set sub_category_id (product_id, products)
      in sub_categories_loop rest category_id
           (sub_category_id + 1, product_id', sub_categories', products'))"

fun categories_loop ::
  "(string \<times> (string \<times> Product list) list) list
     \<Rightarrow> int \<times> int \<times> int \<times> row list \<times> row list \<times> row list
     \<Rightarrow> int \<times> int \<times> int \<times> row list \<times> row list \<times> row list" where
  "categories_loop [] (category_id, sub_category_id, product_id,
                       categories, sub_categories, products) =
     (category_id, sub_category_id, product_id, categories, sub_categories, products)"
| "categories_loop ((category_name, sub_category) # rest)
       (category_id, sub_category_id, product_id, categories, sub_categories, products) =
     (let categories' = categories @ [dict [(''id'', VInt category_id),
                                            (''name'', VStr category_name)]];
          (sub_category_id', product_id', sub_categories', products') =
            sub_categories_loop sub_category category_id
              (sub_category_id, product_id, sub_categories, products)
      in categories_loop rest
           (category_id + 1, sub_category_id', product_id',
            categories', sub_categories', products'))"

definition generate_products :: "world \<Rightarrow> (error + int) \<times> world" where
  "generate_products w =
     (let product_hierarchy = get_product_hierarchy;
          (category_id, sub_category_id, product_id, categories, sub_categories, products) =
            categories_loop product_hierarchy (1, 1, 1, [], [], [])
      in case write_to_csv ''category.csv'' categories w of
           (Inl e, w1) \<Rightarrow> (Inl e, w1)
         | (Inr u1, w1) \<Rightarrow>
             (case write_to_csv ''sub_category.csv'' sub_categories w1 of
                (Inl e, w2) \<Rightarrow> (Inl e, w2)
              | (Inr u2, w2) \<Rightarrow>
                  (case write_to_csv ''product.csv'' products w2 of
                     (Inl e, w3) \<Rightarrow> (Inl e, w3)
                   | (Inr u3, w3) \<Rightarrow> (Inr (int (length products)), w3))))"

section \<open>Orders\<close>

text \<open>The two dictionary displays of \<open>generate_orders\<close>.\<close>

definition order_row :: "int \<Rightarrow> int \<Rightarrow> int \<Rightarrow> int \<Rightarrow> datetime \<Rightarrow> datetime \<Rightarrow> row" where
  "order_row order_id customer_id shipping_method_id courier_id placed_timestamp
       shipped_timestamp =
     dict [(''id'', VInt order_id), (''customer_id'', VInt customer_id),
           (''shipping_method_id'', VInt shipping_method_id), (''courier_id'', VInt courier_id),
           (''placed_timestamp'', VTime placed_timestamp),
           (''shipped_timestamp'', VTime shipped_timestamp)]"

definition order_item_row :: "int \<Rightarrow> int \<Rightarrow> int \<Rightarrow> int \<Rightarrow> row" where
  "order_item_row order_item_id order_id product_id quantity =
     dict [(''id'', VInt order_item_id), (''order_id'', VInt order_id),
           (''product_id'', VInt product_id), (''quantity'', VInt quantity)]"

text \<open>The inner loop \<open>for j in range(0, ...)\<close>: one order item per round, numbered by the
  counter \<open>order_item_id\<close> that the caller owns.\<close>

fun items_loop ::
  "int list \<Rightarrow> int \<Rightarrow> int \<Rightarrow> int \<Rightarrow> row list \<times> int \<Rightarrow> world
     \<Rightarrow> (error + row list \<times> int) \<times> world" where
  "items_loop [] order_id num_products max_quantity (order_items, order_item_id) w =
     (Inr (order_items, order_item_id), w)"
| "items_loop (j # rest) order_id num_products max_quantity (order_items, order_item_id) w =
     (case random_int 1 num_products w of
        (Inl e, w1) \<Rightarrow> (Inl e, w1)
      | (Inr product_id, w1) \<Rightarrow>
          (case random_int 1 max_quantity w1 of
             (Inl e, w2) \<Rightarrow> (Inl e, w2)
           | (Inr quantity, w2) \<Rightarrow>
               items_loop rest order_id num_products max_quantity
                 (order_items @ [order_item_row order_item_id order_id product_id quantity],
                  order_item_id + 1) w2))"

text \<open>One round of the outer loop, for the index \<open>i\<close>.\<close>

definition order_step ::
  "int \<Rightarrow> int \<Rightarrow> int \<Rightarrow> int \<Rightarrow> int \<Rightarrow> int \<Rightarrow> datetime \<Rightarrow> datetime \<Rightarrow> int
     \<Rightarrow> row list \<times> row list \<times> int \<Rightarrow> world
     \<Rightarrow> (error + row list \<times> row list \<times> int) \<times> world" where
  "order_step i num_customers num_products num_shipping_methods num_couriers max_order_items
       start_datetime end_datetime max_quantity st w =
     (case st of (orders, order_items, order_item_id) \<Rightarrow>
     (let order_id = i + 1;
          (placed_timestamp, w1) = date_time_between start_datetime end_datetime w
      in case random_int 1 4 w1 of
           (Inl e, w2) \<Rightarrow> (Inl e, w2)
         | (Inr days, w2) \<Rightarrow>
      (case add_days placed_timestamp days of
           Inl e \<Rightarrow> (Inl e, w2)
         | Inr shipped_timestamp \<Rightarrow>
      (case random_int 1 num_customers w2 of
           (Inl e, w3) \<Rightarrow> (Inl e, w3)
         | (Inr customer_id, w3) \<Rightarrow>
      (case random_int 1 num_shipping_methods w3 of
           (Inl e, w4) \<Rightarrow> (Inl e, w4)
         | (Inr shipping_method_id, w4) \<Rightarrow>
      (case random_int 1 num_couriers w4 of
           (Inl e, w5) \<Rightarrow> (Inl e, w5)
         | (Inr courier_id, w5) \<Rightarrow>
      (let orders' = orders @ [order_row order_id customer_id shipping_method_id courier_id
                                 placed_timestamp shipped_timestamp]
       in case random_int 1 max_order_items w5 of
            (Inl e, w6) \<Rightarrow> (Inl e, w6)
          | (Inr item_count, w6) \<Rightarrow>
              (case items_loop (range0 item_count) order_id num_products max_quantity
                      (order_items, order_item_id) w6 of
                 (Inl e, w7) \<Rightarrow> (Inl e, w7)
               | (Inr (order_items', order_item_id'), w7) \<Rightarrow>
                   (Inr (orders', order_items', order_item_id'), w7)))))))))"

fun orders_loop ::
  "int list \<Rightarrow> int \<Rightarrow> int \<Rightarrow> int \<Rightarrow> int \<Rightarrow> int \<Rightarrow> datetime \<Rightarrow> datetime \<Rightarrow> int
     \<Rightarrow> row list \<times> row list \<times> int \<Rightarrow> world
     \<Rightarrow> (error + row list \<times> row list \<times> int) \<times> world" where
  "orders_loop [] num_customers num_products num_shipping_methods num_couriers max_order_items
       start_datetime end_datetime max_quantity st w = (Inr st, w)"
| "orders_loop (i # rest) num_customers num_products num_shipping_methods num_couriers
       max_order_items start_datetime end_datetime max_quantity st w =
     (case order_step i num_customers num_products num_shipping_methods num_couriers
             max_order_items start_datetime end_datetime max_quantity st w of
        (Inl e, w') \<Rightarrow> (Inl e, w')
      | (Inr st', w') \<Rightarrow>
          orders_loop rest num_customers num_products num_shipping_methods num_couriers
            max_order_items start_datetime end_datetime max_quantity st' w')"

definition generate_orders ::
  "int \<Rightarrow> int \<Rightarrow> int \<Rightarrow> int \<Rightarrow> int \<Rightarrow> int \<Rightarrow> datetime \<Rightarrow> datetime \<Rightarrow> int \<Rightarrow> world
     \<Rightarrow> (error + unit) \<times> world" where
  "generate_orders num_customers num_products num_shipping_methods num_couriers num_orders
       max_order_items start_datetime end_datetime max_quantity w =
     (case orders_loop (range0 num_orders) num_customers num_products num_shipping_methods
             num_couriers max_order_items start_datetime end_datetime max_quantity
             ([], [], 1) w of
        (Inl e, w1) \<Rightarrow> (Inl e, w1)
      | (Inr (orders, order_items, order_item_id), w1) \<Rightarrow>
          (case write_to_csv ''order.csv'' orders w1 of
             (Inl e, w2) \<Rightarrow> (Inl e, w2)
           | (Inr u, w2) \<Rightarrow> write_to_csv ''order_item.csv'' order_items w2))"

section \<open>The orchestrator\<close>

text \<open>
  \<open>main\<close> removes the output directory if it exists and creates it afresh, so the
  generators start from an empty directory. Its local \<open>num_customers\<close> is rebound to the
  result of \<open>generate_customers\<close>; the first argument of \<open>generate_orders\<close> is the local
  \<open>max_quantity\<close>, and the parameters \<open>start_datetime\<close>, \<open>end_datetime\<close> and
  \<open>max_quantity\<close> of \<open>generate_orders\<close> take their defaults. Log messages are not modelled.
\<close>

definition main :: "world \<Rightarrow> (error + unit) \<times> world" where
  "main w =
     (let w0 = w\<lparr>files := Map.empty\<rparr>;
          num_customers = 10;
          num_orders = 100;
          max_order_items = 3;
          max_quantity = 2
      in case generate_shipping_methods w0 of
           (Inl e, w1) \<Rightarrow> (Inl e, w1)
         | (Inr num_shipping_methods, w1) \<Rightarrow>
      (case generate_couriers w1 of
           (Inl e, w2) \<Rightarrow> (Inl e, w2)
         | (Inr num_couriers, w2) \<Rightarrow>
      (case generate_customers num_customers w2 of
           (Inl e, w3) \<Rightarrow> (Inl e, w3)
         | (Inr num_customers', w3) \<Rightarrow>
      (case generate_products w3 of
           (Inl e, w4) \<Rightarrow> (Inl e, w4)
         | (Inr num_products, w4) \<Rightarrow>
             generate_orders max_quantity num_products num_shipping_methods num_couriers
               num_orders max_order_items default_start_datetime default_end_datetime
               default_max_quantity w4))))"

section \<open>Reading the output\<close>

text \<open>
  A written file read back as dictionaries (header zipped with each line, as
  \<open>csv.DictReader\<close> does), the table stored under a file name (empty when there is no such
  file), and a column of a table.
\<close>

definition records_of :: "csv_file \<Rightarrow> row list" where
  "records_of f = map (zip (csv_fields f)) (csv_lines f)"

definition table :: "world \<Rightarrow> string \<Rightarrow> row list" where
  "table w file_name = (case files w file_name of None \<Rightarrow> [] | Some f \<Rightarrow> records_of f)"

definition column :: "string \<Rightarrow> row list \<Rightarrow> val option list" where
  "column k rows = map (\<lambda>r. map_of r k) rows"

text \<open>Checks on the rows read back: an integer field within bounds, the shipment offset of
  an order, and identifiers that run 1, 2, ..., N down a table of N rows.\<close>

definition int_field_in :: "string \<Rightarrow> int \<Rightarrow> int \<Rightarrow> row \<Rightarrow> bool" where
  "int_field_in k lo hi r = (case map_of r k of Some (VInt v) \<Rightarrow> lo \<le> v \<and> v \<le> hi | _ \<Rightarrow> False)"

definition shipped_offset_ok :: "row \<Rightarrow> bool" where
  "shipped_offset_ok r =
     (case (map_of r ''placed_timestamp'', map_of r ''shipped_timestamp'') of
        (Some (VTime p), Some (VTime s)) \<Rightarrow> s \<in> set (map (\<lambda>d. p + d * 86400000000) [1..4])
      | _ \<Rightarrow> False)"

definition dense_ids :: "row list \<Rightarrow> bool" where
  "dense_ids t = (column ''id'' t = map (\<lambda>i. Some (VInt i)) [1..int (length t)])"

definition order_ok :: "int \<Rightarrow> int \<Rightarrow> int \<Rightarrow> row \<Rightarrow> bool" where
  "order_ok num_customers num_shipping_methods num_couriers r =
     (map fst r = [''id'', ''customer_id'', ''shipping_method_id'', ''courier_id'',
                   ''placed_timestamp'', ''shipped_timestamp''] \<and>
      int_field_in ''customer_id'' 1 num_customers r \<and>
      int_field_in ''shipping_method_id'' 1 num_shipping_methods r \<and>
      int_field_in ''courier_id'' 1 num_couriers r \<and>
      shipped_offset_ok r)"

definition order_item_ok :: "int \<Rightarrow> int \<Rightarrow> row \<Rightarrow> bool" where
  "order_item_ok num_products max_quantity r =
     (map fst r = [''id'', ''order_id'', ''product_id'', ''quantity''] \<and>
      int_field_in ''product_id'' 1 num_products r \<and>
      int_field_in ''quantity'' 1 max_quantity r)"

text \<open>The world in which \<open>main\<close> reaches its call of \<open>generate_orders\<close>: the fresh
  directory after the four other generators have run.\<close>

definition before_orders :: "world \<Rightarrow> world" where
  "before_orders w =
     snd (generate_products (snd (generate_customers 10 (snd (generate_couriers
       (snd (generate_shipping_methods (w\<lparr>files := Map.empty\<rparr>))))))))"

text \<open>A world for concrete runs: an empty directory and the raw draws 0, 1, 2, ...\<close>

definition sample_world :: world where
  "sample_world = \<lparr>files = Map.empty, entropy = (\<lambda>i. i),
                    city_names = (\<lambda>n. ''Springfield''), country_names = (\<lambda>n. ''Freedonia'')\<rparr>"

section \<open>The CSV sink: properties\<close>

text \<open>
  Rows that all carry the same distinct keys, in the same order, are written without
  error, and reading the file back returns them.
\<close>

lemma dict_get_keys:
  "distinct (map fst r) \<Longrightarrow> map (\<lambda>key. dict_get r key d) (map fst r) = map snd r"
proof (induction r)
  case Nil
  then show ?case by simp
next
  case (Cons kv r)
  obtain k v where kv: "kv = (k, v)" by (cases kv)
  from Cons.prems kv have nk: "k \<notin> fst ` set r" and dr: "distinct (map fst r)" by auto
  have "map (\<lambda>key. dict_get (kv # r) key d) (map fst r) = map (\<lambda>key. dict_get r key d) (map fst r)"
    using nk kv by (auto simp: dict_get_def)
  with Cons.IH [OF dr] kv show ?case by (simp add: dict_get_def)
qed

lemma dict_to_list_uniform:
  "distinct (map fst r) \<Longrightarrow> dict_to_list (map fst r) r = Inr (map snd r)"
proof -
  assume d: "distinct (map fst r)"
  have "\<not> list_ex (\<lambda>k. k \<notin> set (map fst r)) (map fst r)"
    by (simp add: list_ex_iff)
  then show ?thesis
    unfolding dict_to_list_def using dict_get_keys [OF d, of "VStr []"] by presburger
qed

lemma writerows_uniform:
  "list_all (\<lambda>r. map fst r = ks) rows \<Longrightarrow> distinct ks \<Longrightarrow>
   writerows ks rows f = (Inr (), f\<lparr>csv_lines := csv_lines f @ map (map snd) rows\<rparr>)"
proof (induction rows arbitrary: f)
  case Nil
  then show ?case by simp
next
  case (Cons r rows)
  then have "dict_to_list ks r = Inr (map snd r)"
    using dict_to_list_uniform [of r] by auto
  with Cons show ?case by simp
qed

lemma write_to_csv_uniform:
  assumes "rows \<noteq> []" "list_all (\<lambda>r. map fst r = ks) rows" "distinct ks"
  shows "write_to_csv file_name rows w =
           (Inr (), w\<lparr>files := (files w)(file_name \<mapsto>
                      \<lparr>csv_fields = ks, csv_lines = map (map snd) rows\<rparr>)\<rparr>)"
proof -
  from assms(1,2) have "map fst (hd rows) = ks" by (cases rows) auto
  with assms show ?thesis
    by (simp add: write_to_csv_def writerows_uniform)
qed

lemma records_of_uniform:
  "list_all (\<lambda>r. map fst r = ks) rows \<Longrightarrow>
   records_of \<lparr>csv_fields = ks, csv_lines = map (map snd) rows\<rparr> = rows"
  by (induction rows) (auto simp: records_of_def zip_map_fst_snd)

section \<open>The random library and the order loops: properties\<close>

lemma order_row_eq:
  "order_row a b c d e f =
     [(''id'', VInt a), (''customer_id'', VInt b), (''shipping_method_id'', VInt c),
      (''courier_id'', VInt d), (''placed_timestamp'', VTime e), (''shipped_timestamp'', VTime f)]"
  by (simp add: order_row_def dict_def)

lemma order_item_row_eq:
  "order_item_row a b c d =
     [(''id'', VInt a), (''order_id'', VInt b), (''product_id'', VInt c), (''quantity'', VInt d)]"
  by (simp add: order_item_row_def dict_def)

lemma mod_range:
  "lo \<le> hi \<Longrightarrow> lo \<le> lo + x mod (hi - lo + 1) \<and> lo + x mod (hi - lo + 1) \<le> (hi::int)"
  using pos_mod_bound [of "hi - lo + 1" x] pos_mod_sign [of "hi - lo + 1" x] by linarith

lemma random_int_Inr:
  "random_int lo hi w = (Inr v, w') \<Longrightarrow> lo \<le> v \<and> v \<le> hi \<and> w' = advance w"
  using mod_range [of lo hi "int (entropy w 0)"]
  by (auto simp: random_int_def split: if_splits)

lemma random_int_nonempty:
  "lo \<le> hi \<Longrightarrow> \<exists>v. random_int lo hi w = (Inr v, advance w) \<and> lo \<le> v \<and> v \<le> hi"
  using mod_range [of lo hi "int (entropy w 0)"]
  by (auto simp: random_int_def)

lemma files_advance: "files (advance w) = files w"
  by (simp add: advance_def)

lemma order_item_row_ok:
  "1 \<le> p \<Longrightarrow> p \<le> np \<Longrightarrow> 1 \<le> q \<Longrightarrow> q \<le> mq \<Longrightarrow> order_item_ok np mq (order_item_row n oid p q)"
  by (simp add: order_item_ok_def order_item_row_eq int_field_in_def)

lemma column_append: "column k (xs @ ys) = column k xs @ column k ys"
  by (simp add: column_def)

lemma items_loop_Inr:
  "items_loop js oid np mq (its, n) w = (Inr (its', n'), w') \<Longrightarrow>
   \<exists>new. its' = its @ new \<and> length new = length js \<and> n' = n + int (length js) \<and>
     column ''id'' new = map (\<lambda>i. Some (VInt i)) [n..n' - 1] \<and>
     column ''order_id'' new = replicate (length js) (Some (VInt oid)) \<and>
     list_all (order_item_ok np mq) new \<and> files w' = files w"
proof (induction js arbitrary: its n w)
  case Nil
  then show ?case by (simp add: column_def)
next
  case (Cons j js)
  from Cons.prems obtain p w1 where r1: "random_int 1 np w = (Inr p, w1)"
    by (auto split: prod.splits sum.splits)
  from Cons.prems r1 obtain q w2 where r2: "random_int 1 mq w1 = (Inr q, w2)"
    by (auto split: prod.splits sum.splits)
  from Cons.prems r1 r2 have rec:
    "items_loop js oid np mq (its @ [order_item_row n oid p q], n + 1) w2 = (Inr (its', n'), w')"
    by simp
  from Cons.IH [OF rec] obtain new where new:
    "its' = (its @ [order_item_row n oid p q]) @ new" "length new = length js"
    "n' = n + 1 + int (length js)"
    "column ''id'' new = map (\<lambda>i. Some (VInt i)) [n + 1..n' - 1]"
    "column ''order_id'' new = replicate (length js) (Some (VInt oid))"
    "list_all (order_item_ok np mq) new" "files w' = files w2"
    by auto
  have ok: "order_item_ok np mq (order_item_row n oid p q)"
    using random_int_Inr [OF r1] random_int_Inr [OF r2] by (simp add: order_item_row_ok)
  have fs: "files w2 = files w"
    using random_int_Inr [OF r1] random_int_Inr [OF r2] by (simp add: files_advance)
  have up: "[n..n' - 1] = n # [n + 1..n' - 1]"
    using new(3) by (simp add: upto_rec1)
  let ?new = "order_item_row n oid p q # new"
  have "its' = its @ ?new" using new(1) by simp
  moreover have "length ?new = length (j # js)" using new(2) by simp
  moreover have "n' = n + int (length (j # js))" using new(3) by simp
  moreover have "column ''id'' ?new = map (\<lambda>i. Some (VInt i)) [n..n' - 1]"
    using new(4) up by (simp add: column_def order_item_row_eq)
  moreover have "column ''order_id'' ?new = replicate (length (j # js)) (Some (VInt oid))"
    using new(5) by (simp add: column_def order_item_row_eq)
  moreover have "list_all (order_item_ok np mq) ?new" using new(6) ok by simp
  moreover have "files w' = files w" using new(7) fs by simp
  ultimately show ?case by blast
qed

lemma date_time_between_range:
  "date_time_between sd ed w = (p, w') \<Longrightarrow>
   sd \<le> p \<and> p \<le> max (sd + 1000000) ed \<and> w' = advance w"
  using mod_range [of sd ed "int (entropy w 0)"]
    mod_range [of sd "sd + 1000000" "int (entropy w 0)"]
  by (auto simp: date_time_between_def split: if_splits)

lemma add_days_Inr: "add_days t d = Inr s \<Longrightarrow> s = t + d * 86400000000"
  by (auto simp: add_days_def Let_def split: if_splits)

lemma order_row_ok:
  "1 \<le> c \<Longrightarrow> c \<le> nc \<Longrightarrow> 1 \<le> s \<Longrightarrow> s \<le> nsm \<Longrightarrow> 1 \<le> k \<Longrightarrow> k \<le> ncr \<Longrightarrow> 1 \<le> d \<Longrightarrow> d \<le> 4 \<Longrightarrow>
   order_ok nc nsm ncr (order_row oid c s k p (p + d * 86400000000))"
proof -
  assume d: "1 \<le> d" "d \<le> 4" and r: "1 \<le> c" "c \<le> nc" "1 \<le> s" "s \<le> nsm" "1 \<le> k" "k \<le> ncr"
  from d have "d \<in> {1..4}" by simp
  then have "p + d * 86400000000 \<in> set (map (\<lambda>d. p + d * 86400000000) [1..4])" by auto
  then have "shipped_offset_ok (order_row oid c s k p (p + d * 86400000000))"
    by (simp add: shipped_offset_ok_def order_row_eq)
  with r show ?thesis
    by (simp add: order_ok_def order_row_eq int_field_in_def)
qed

lemma order_step_Inr:
  assumes "order_step i nc np nsm ncr moi sd ed mq (os, its, n) w = (Inr (os', its', n'), w')"
  shows "\<exists>r new. os' = os @ [r] \<and> map_of r ''id'' = Some (VInt (i + 1)) \<and> order_ok nc nsm ncr r \<and>
           its' = its @ new \<and> new \<noteq> [] \<and> n' = n + int (length new) \<and>
           column ''id'' new = map (\<lambda>i. Some (VInt i)) [n..n' - 1] \<and>
           set (column ''order_id'' new) = {Some (VInt (i + 1))} \<and>
           list_all (order_item_ok np mq) new \<and> files w' = files w"
proof -
  obtain p w1 where dt: "date_time_between sd ed w = (p, w1)" by (cases "date_time_between sd ed w")
  from assms dt obtain d w2 where r1: "random_int 1 4 w1 = (Inr d, w2)"
    by (auto simp: order_step_def Let_def split: prod.splits sum.splits)
  from assms dt r1 obtain sh where ad: "add_days p d = Inr sh"
    by (auto simp: order_step_def Let_def split: prod.splits sum.splits)
  from assms dt r1 ad obtain c w3 where r2: "random_int 1 nc w2 = (Inr c, w3)"
    by (auto simp: order_step_def Let_def split: prod.splits sum.splits)
  from assms dt r1 ad r2 obtain s w4 where r3: "random_int 1 nsm w3 = (Inr s, w4)"
    by (auto simp: order_step_def Let_def split: prod.splits sum.splits)
  from assms dt r1 ad r2 r3 obtain k w5 where r4: "random_int 1 ncr w4 = (Inr k, w5)"
    by (auto simp: order_step_def Let_def split: prod.splits sum.splits)
  from assms dt r1 ad r2 r3 r4 obtain m w6 where r5: "random_int 1 moi w5 = (Inr m, w6)"
    by (auto simp: order_step_def Let_def split: prod.splits sum.splits)
  from assms dt r1 ad r2 r3 r4 r5 have
    il: "items_loop (range0 m) (i + 1) np mq (its, n) w6 = (Inr (its', n'), w')"
    and os': "os' = os @ [order_row (i + 1) c s k p sh]"
    by (auto simp: order_step_def Let_def split: prod.splits sum.splits)
  from items_loop_Inr [OF il] obtain new where new:
    "its' = its @ new" "length new = length (range0 m)" "n' = n + int (length (range0 m))"
    "column ''id'' new = map (\<lambda>i. Some (VInt i)) [n..n' - 1]"
    "column ''order_id'' new = replicate (length (range0 m)) (Some (VInt (i + 1)))"
    "list_all (order_item_ok np mq) new" "files w' = files w6"
    by auto
  from random_int_Inr [OF r5] have m: "1 \<le> m" by simp
  then have len: "0 < length (range0 m)" by (simp add: range0_def)
  have sh: "sh = p + d * 86400000000" using ad by (rule add_days_Inr)
  have ok: "order_ok nc nsm ncr (order_row (i + 1) c s k p sh)"
    unfolding sh using random_int_Inr [OF r1] random_int_Inr [OF r2] random_int_Inr [OF r3]
      random_int_Inr [OF r4] by (intro order_row_ok) simp_all
  have fs: "files w6 = files w"
    using date_time_between_range [OF dt] random_int_Inr [OF r1] random_int_Inr [OF r2]
      random_int_Inr [OF r3] random_int_Inr [OF r4] random_int_Inr [OF r5]
    by (simp add: files_advance)
  have "new \<noteq> []" using new(2) len by auto
  moreover have "n' = n + int (length new)" using new(2,3) by simp
  moreover have "set (column ''order_id'' new) = {Some (VInt (i + 1))}"
    using new(5) len by simp
  moreover have "map_of (order_row (i + 1) c s k p sh) ''id'' = Some (VInt (i + 1))"
    by (simp add: order_row_eq)
  moreover have "files w' = files w" using new(7) fs by simp
  ultimately show ?thesis using os' ok new(1,4,6) by blast
qed

lemma upto_join: "n \<le> n1 \<Longrightarrow> n1 \<le> n' \<Longrightarrow> [n..n1 - 1] @ [n1..n' - 1] = [n..n' - 1]"
proof (cases "n1 = n'")
  case True
  then show ?thesis by simp
next
  case False
  assume "n \<le> n1" "n1 \<le> n'"
  with False have "n \<le> n1" "n1 \<le> n' - 1" by simp_all
  then show ?thesis by (rule upto_split1 [symmetric])
qed

lemma range0_succ: "map (\<lambda>i. i + 1) (range0 n) = [1..n]"
proof -
  have "map (\<lambda>i. i + 1) (map int [0..<k]) = [1..int k]" for k
  proof (induction k)
    case 0
    then show ?case by simp
  next
    case (Suc k)
    have "[1..int (Suc k)] = [1..int k] @ [int k + 1]"
      using upto_rec2 [of 1 "int (Suc k)"] by simp
    with Suc show ?case by simp
  qed
  from this [of "nat n"] show ?thesis
    by (cases "0 \<le> n") (simp_all add: range0_def)
qed

lemma orders_loop_Inr:
  "orders_loop ixs nc np nsm ncr moi sd ed mq (os, its, n) w = (Inr (os', its', n'), w') \<Longrightarrow>
   \<exists>new_os new_its. os' = os @ new_os \<and> its' = its @ new_its \<and>
     n' = n + int (length new_its) \<and> length ixs \<le> length new_its \<and>
     column ''id'' new_os = map (\<lambda>i. Some (VInt (i + 1))) ixs \<and>
     list_all (order_ok nc nsm ncr) new_os \<and>
     column ''id'' new_its = map (\<lambda>i. Some (VInt i)) [n..n' - 1] \<and>
     set (column ''order_id'' new_its) = set (column ''id'' new_os) \<and>
     list_all (order_item_ok np mq) new_its \<and> files w' = files w"
proof (induction ixs arbitrary: os its n w)
  case Nil
  then show ?case by (simp add: column_def)
next
  case (Cons i ixs)
  from Cons.prems obtain os1 its1 n1 w1 where
    st: "order_step i nc np nsm ncr moi sd ed mq (os, its, n) w = (Inr (os1, its1, n1), w1)"
    and rec: "orders_loop ixs nc np nsm ncr moi sd ed mq (os1, its1, n1) w1 = (Inr (os', its', n'), w')"
    by (auto split: prod.splits sum.splits)
  from order_step_Inr [OF st] obtain r new where s1:
    "os1 = os @ [r]" "map_of r ''id'' = Some (VInt (i + 1))" "order_ok nc nsm ncr r"
    "its1 = its @ new" "new \<noteq> []" "n1 = n + int (length new)"
    "column ''id'' new = map (\<lambda>i. Some (VInt i)) [n..n1 - 1]"
    "set (column ''order_id'' new) = {Some (VInt (i + 1))}"
    "list_all (order_item_ok np mq) new" "files w1 = files w"
    by auto
  from Cons.IH [OF rec] obtain new_os new_its where s2:
    "os' = os1 @ new_os" "its' = its1 @ new_its"
    "n' = n1 + int (length new_its)" "length ixs \<le> length new_its"
    "column ''id'' new_os = map (\<lambda>i. Some (VInt (i + 1))) ixs"
    "list_all (order_ok nc nsm ncr) new_os"
    "column ''id'' new_its = map (\<lambda>i. Some (VInt i)) [n1..n' - 1]"
    "set (column ''order_id'' new_its) = set (column ''id'' new_os)"
    "list_all (order_item_ok np mq) new_its" "files w' = files w1"
    by auto
  let ?os = "r # new_os" and ?its = "new @ new_its"
  have "os' = os @ ?os" using s1(1) s2(1) by simp
  moreover have "its' = its @ ?its" using s1(4) s2(2) by simp
  moreover have "n' = n + int (length ?its)" using s1(6) s2(3) by simp
  moreover have "length (i # ixs) \<le> length ?its"
    using s1(5) s2(4) by (cases new) simp_all
  moreover have "column ''id'' ?os = map (\<lambda>i. Some (VInt (i + 1))) (i # ixs)"
    using s1(2) s2(5) by (simp add: column_def)
  moreover have "list_all (order_ok nc nsm ncr) ?os" using s1(3) s2(6) by simp
  moreover have "column ''id'' ?its = map (\<lambda>i. Some (VInt i)) [n..n' - 1]"
  proof -
    have "[n..n1 - 1] @ [n1..n' - 1] = [n..n' - 1]"
      using s1(6) s2(3) by (intro upto_join) simp_all
    then show ?thesis using s1(7) s2(7) by (simp add: column_append flip: map_append)
  qed
  moreover have "set (column ''order_id'' ?its) = set (column ''id'' ?os)"
    using s1(2,8) s2(8) by (simp add: column_append) (simp add: column_def)
  moreover have "list_all (order_item_ok np mq) ?its" using s1(9) s2(9) by simp
  moreover have "files w' = files w" using s1(10) s2(10) by simp
  ultimately show ?case by blast
qed

lemma fst_write_to_csv_uniform:
  assumes "list_all (\<lambda>r. map fst r = ks) rows" "distinct ks"
  shows "fst (write_to_csv file_name rows w) = Inr ()"
proof (cases "rows = []")
  case True
  then show ?thesis by (simp add: write_to_csv_def)
next
  case False
  from write_to_csv_uniform [OF False assms] show ?thesis by simp
qed

lemma list_all_weaken: "list_all P xs \<Longrightarrow> (\<And>x. P x \<Longrightarrow> Q x) \<Longrightarrow> list_all Q xs"
  by (induction xs) auto

lemma order_ok_keys:
  "list_all (order_ok nc nsm ncr) os \<Longrightarrow>
   list_all (\<lambda>r. map fst r = [''id'', ''customer_id'', ''shipping_method_id'', ''courier_id'',
                                ''placed_timestamp'', ''shipped_timestamp'']) os"
  by (erule list_all_weaken) (simp add: order_ok_def)

lemma order_item_ok_keys:
  "list_all (order_item_ok np mq) its \<Longrightarrow>
   list_all (\<lambda>r. map fst r = [''id'', ''order_id'', ''product_id'', ''quantity'']) its"
  by (erule list_all_weaken) (simp add: order_item_ok_def)

lemma generate_orders_Inr:
  assumes ok: "generate_orders nc np nsm ncr num moi sd ed mq w = (Inr (), w')" and num: "1 \<le> num"
  shows "\<exists>os its w1.
           files w' = (files w)(''order.csv'' \<mapsto>
                         \<lparr>csv_fields = [''id'', ''customer_id'', ''shipping_method_id'', ''courier_id'',
                                        ''placed_timestamp'', ''shipped_timestamp''],
                          csv_lines = map (map snd) os\<rparr>,
                       ''order_item.csv'' \<mapsto>
                         \<lparr>csv_fields = [''id'', ''order_id'', ''product_id'', ''quantity''],
                          csv_lines = map (map snd) its\<rparr>) \<and>
           table w' ''order.csv'' = os \<and> table w' ''order_item.csv'' = its \<and>
           column ''id'' os = map (\<lambda>i. Some (VInt i)) [1..num] \<and>
           list_all (order_ok nc nsm ncr) os \<and>
           column ''id'' its = map (\<lambda>i. Some (VInt i)) [1..int (length its)] \<and>
           nat num \<le> length its \<and>
           set (column ''order_id'' its) = set (column ''id'' os) \<and>
           list_all (order_item_ok np mq) its"
proof -
  from ok obtain os its n w1 where
    loop: "orders_loop (range0 num) nc np nsm ncr moi sd ed mq ([], [], 1) w = (Inr (os, its, n), w1)"
    and wr: "(case write_to_csv ''order.csv'' os w1 of
               (Inl e, w2) \<Rightarrow> (Inl e, w2)
             | (Inr u, w2) \<Rightarrow> write_to_csv ''order_item.csv'' its w2) = (Inr (), w')"
    by (auto simp: generate_orders_def split: prod.splits sum.splits)
  from orders_loop_Inr [OF loop] have p:
    "n = 1 + int (length its)" "length (range0 num) \<le> length its"
    "column ''id'' os = map (\<lambda>i. Some (VInt (i + 1))) (range0 num)"
    "list_all (order_ok nc nsm ncr) os"
    "column ''id'' its = map (\<lambda>i. Some (VInt i)) [1..n - 1]"
    "set (column ''order_id'' its) = set (column ''id'' os)"
    "list_all (order_item_ok np mq) its" "files w1 = files w"
    by auto
  have ids: "column ''id'' os = map (\<lambda>i. Some (VInt i)) [1..num]"
    using p(3) range0_succ [of num] by (simp flip: map_map [of "\<lambda>i. Some (VInt i)" "\<lambda>i. i + 1", unfolded comp_def])
  have len: "length (range0 num) = nat num" by (simp add: range0_def)
  have "length (column ''id'' os) = nat num" using p(3) len by simp
  then have os_ne: "os \<noteq> []" using num by (auto simp: column_def)
  have its_ne: "its \<noteq> []" using p(2) len num by auto
  note w2 = write_to_csv_uniform [OF os_ne order_ok_keys [OF p(4)], of "''order.csv''" w1]
  note w3 = write_to_csv_uniform [OF its_ne order_item_ok_keys [OF p(7)], of "''order_item.csv''"]
  from wr have w': "w' = w1\<lparr>files := (files w1)(''order.csv'' \<mapsto>
                         \<lparr>csv_fields = [''id'', ''customer_id'', ''shipping_method_id'', ''courier_id'',
                                        ''placed_timestamp'', ''shipped_timestamp''],
                          csv_lines = map (map snd) os\<rparr>,
                       ''order_item.csv'' \<mapsto>
                         \<lparr>csv_fields = [''id'', ''order_id'', ''product_id'', ''quantity''],
                          csv_lines = map (map snd) its\<rparr>)\<rparr>"
    by (simp add: w2 w3)
  have t1: "table w' ''order.csv'' = os"
    using records_of_uniform [OF order_ok_keys [OF p(4)]] by (simp add: w' table_def)
  have t2: "table w' ''order_item.csv'' = its"
    using records_of_uniform [OF order_item_ok_keys [OF p(7)]] by (simp add: w' table_def)
  have "files w' = (files w)(''order.csv'' \<mapsto>
                         \<lparr>csv_fields = [''id'', ''customer_id'', ''shipping_method_id'', ''courier_id'',
                                        ''placed_timestamp'', ''shipped_timestamp''],
                          csv_lines = map (map snd) os\<rparr>,
                       ''order_item.csv'' \<mapsto>
                         \<lparr>csv_fields = [''id'', ''order_id'', ''product_id'', ''quantity''],
                          csv_lines = map (map snd) its\<rparr>)"
    by (simp add: w' p(8))
  moreover have "column ''id'' its = map (\<lambda>i. Some (VInt i)) [1..int (length its)]"
    using p(5) p(1) by simp
  moreover have "nat num \<le> length its" using p(2) len by simp
  ultimately show ?thesis using t1 t2 ids p(4,6,7) by blast
qed

section \<open>When the order generator returns, and what a failing call leaves\<close>

lemma items_loop_succeeds:
  "1 \<le> np \<Longrightarrow> 1 \<le> mq \<Longrightarrow> \<exists>res w'. items_loop js oid np mq st w = (Inr res, w')"
proof (induction js arbitrary: st w)
  case Nil
  then show ?case by (cases st) simp
next
  case (Cons j js)
  obtain its n where st: "st = (its, n)" by (cases st)
  from random_int_nonempty [OF Cons.prems(1), of w] obtain p where
    r1: "random_int 1 np w = (Inr p, advance w)" by blast
  from random_int_nonempty [OF Cons.prems(2), of "advance w"] obtain q where
    r2: "random_int 1 mq (advance w) = (Inr q, advance (advance w))" by blast
  from Cons.IH [OF Cons.prems] show ?case by (simp add: st r1 r2)
qed

lemma add_days_succeeds:
  "0 \<le> t \<Longrightarrow> t + 345600000000 \<le> datetime_max \<Longrightarrow> 1 \<le> d \<Longrightarrow> d \<le> 4 \<Longrightarrow>
   add_days t d = Inr (t + d * 86400000000)"
  by (simp add: add_days_def Let_def)

lemma order_step_succeeds:
  assumes "1 \<le> nc" "1 \<le> np" "1 \<le> nsm" "1 \<le> ncr" "1 \<le> moi" "1 \<le> mq"
    and "0 \<le> sd" "sd + 345601000000 \<le> datetime_max" "ed + 345600000000 \<le> datetime_max"
  shows "\<exists>res w'. order_step i nc np nsm ncr moi sd ed mq st w = (Inr res, w')"
proof -
  obtain os its n where st: "st = (os, its, n)" by (cases st)
  obtain p w1 where dt: "date_time_between sd ed w = (p, w1)" by (cases "date_time_between sd ed w")
  from date_time_between_range [OF dt] assms(7-9) have p: "0 \<le> p" "p + 345600000000 \<le> datetime_max"
    by auto
  from random_int_nonempty [of 1 4 w1] obtain d w2 where
    r1: "random_int 1 4 w1 = (Inr d, w2)" and d: "1 \<le> d" "d \<le> 4" by auto
  note ad = add_days_succeeds [OF p d]
  from random_int_nonempty [OF assms(1), of w2] obtain c w3 where
    r2: "random_int 1 nc w2 = (Inr c, w3)" by blast
  from random_int_nonempty [OF assms(3), of w3] obtain s w4 where
    r3: "random_int 1 nsm w3 = (Inr s, w4)" by blast
  from random_int_nonempty [OF assms(4), of w4] obtain k w5 where
    r4: "random_int 1 ncr w4 = (Inr k, w5)" by blast
  from random_int_nonempty [OF assms(5), of w5] obtain m w6 where
    r5: "random_int 1 moi w5 = (Inr m, w6)" by blast
  from items_loop_succeeds [OF assms(2) assms(6), of "range0 m" "i + 1" "(its, n)" w6]
  obtain its' n' w7 where
    il: "items_loop (range0 m) (i + 1) np mq (its, n) w6 = (Inr (its', n'), w7)" by auto
  show ?thesis
    by (simp add: order_step_def st dt r1 ad r2 r3 r4 r5 il)
qed

lemma orders_loop_succeeds:
  assumes "1 \<le> nc" "1 \<le> np" "1 \<le> nsm" "1 \<le> ncr" "1 \<le> moi" "1 \<le> mq"
    and "0 \<le> sd" "sd + 345601000000 \<le> datetime_max" "ed + 345600000000 \<le> datetime_max"
  shows "\<exists>res w'. orders_loop ixs nc np nsm ncr moi sd ed mq st w = (Inr res, w')"
proof (induction ixs arbitrary: st w)
  case Nil
  show ?case by (rule exI [of _ st], rule exI [of _ w]) simp
next
  case (Cons i ixs)
  from order_step_succeeds [OF assms, of i st w] obtain st1 w1 where
    s: "order_step i nc np nsm ncr moi sd ed mq st w = (Inr st1, w1)" by blast
  from Cons.IH [of st1 w1] show ?case by (simp add: s)
qed

lemma generate_orders_succeeds:
  assumes "1 \<le> nc" "1 \<le> np" "1 \<le> nsm" "1 \<le> ncr" "1 \<le> moi" "1 \<le> mq"
    and "0 \<le> sd" "sd + 345601000000 \<le> datetime_max" "ed + 345600000000 \<le> datetime_max"
  shows "fst (generate_orders nc np nsm ncr num moi sd ed mq w) = Inr ()"
proof -
  from orders_loop_succeeds [OF assms, of "range0 num" "([], [], 1)" w] obtain os its n w1 where
    loop: "orders_loop (range0 num) nc np nsm ncr moi sd ed mq ([], [], 1) w = (Inr (os, its, n), w1)"
    by auto
  from orders_loop_Inr [OF loop] have
    k1: "list_all (order_ok nc nsm ncr) os" and k2: "list_all (order_item_ok np mq) its"
    by auto
  obtain u1 w2 where a: "write_to_csv ''order.csv'' os w1 = (u1, w2)" by (cases "write_to_csv ''order.csv'' os w1")
  from fst_write_to_csv_uniform [OF order_ok_keys [OF k1], of "''order.csv''" w1] a
  have u1: "u1 = Inr ()" by simp
  from fst_write_to_csv_uniform [OF order_item_ok_keys [OF k2], of "''order_item.csv''" w2]
  show ?thesis by (simp add: generate_orders_def loop a u1)
qed

lemma random_int_files: "random_int lo hi v = (r, v') \<Longrightarrow> files v' = files v"
  by (auto simp: random_int_def files_advance split: if_splits)

lemma items_loop_files: "items_loop js oid np mq st v = (r, v') \<Longrightarrow> files v' = files v"
proof (induction js arbitrary: st v)
  case Nil
  then show ?case by (cases st) simp
next
  case (Cons j js)
  obtain its n where st: "st = (its, n)" by (cases st)
  obtain r1 v1 where a: "random_int 1 np v = (r1, v1)" by (cases "random_int 1 np v")
  obtain r2 v2 where b: "random_int 1 mq v1 = (r2, v2)" by (cases "random_int 1 mq v1")
  note f1 = random_int_files [OF a] and f2 = random_int_files [OF b]
  show ?case
  proof (cases r1)
    case (Inl e)
    with Cons.prems a f1 show ?thesis by (simp add: st)
  next
    case p: (Inr p)
    show ?thesis
    proof (cases r2)
      case (Inl e)
      with Cons.prems a b p f1 f2 show ?thesis by (simp add: st)
    next
      case (Inr q)
      with Cons.prems a b p have
        "items_loop js oid np mq (its @ [order_item_row n oid p q], n + 1) v2 = (r, v')"
        by (simp add: st)
      from Cons.IH [OF this] f1 f2 show ?thesis by simp
    qed
  qed
qed

lemma order_step_files:
  "order_step i nc np nsm ncr moi sd ed mq st v = (r, v') \<Longrightarrow> files v' = files v"
proof -
  assume a: "order_step i nc np nsm ncr moi sd ed mq st v = (r, v')"
  obtain os its n where st: "st = (os, its, n)" by (cases st)
  obtain p w1 where dt: "date_time_between sd ed v = (p, w1)" by (cases "date_time_between sd ed v")
  have f1: "files w1 = files v" using date_time_between_range [OF dt] by (simp add: files_advance)
  from a show ?thesis
    unfolding order_step_def st
    by (auto simp: dt Let_def f1 split: prod.splits sum.splits
        dest!: random_int_files items_loop_files)
qed

lemma orders_loop_files:
  "orders_loop ixs nc np nsm ncr moi sd ed mq st v = (r, v') \<Longrightarrow> files v' = files v"
proof (induction ixs arbitrary: st v)
  case Nil
  then show ?case by simp
next
  case (Cons i ixs)
  obtain r1 v1 where s: "order_step i nc np nsm ncr moi sd ed mq st v = (r1, v1)"
    by (cases "order_step i nc np nsm ncr moi sd ed mq st v")
  note f1 = order_step_files [OF s]
  show ?case
  proof (cases r1)
    case (Inl e)
    with Cons.prems s f1 show ?thesis by simp
  next
    case (Inr st1)
    with Cons.prems s have "orders_loop ixs nc np nsm ncr moi sd ed mq st1 v1 = (r, v')" by simp
    from Cons.IH [OF this] f1 show ?thesis by simp
  qed
qed


section \<open>Customers and the fixed tables: properties\<close>

lemma customers_loop_eq:
  "customers_loop ixs cs v = (cs', v') \<Longrightarrow>
   \<exists>new. cs' = cs @ new \<and> column ''id'' new = map (\<lambda>i. Some (VInt (i + 1))) ixs \<and>
     list_all (\<lambda>r. map fst r = [''id'', ''city'', ''country'']) new \<and> files v' = files v"
proof (induction ixs arbitrary: cs v)
  case Nil
  then show ?case by (simp add: column_def)
next
  case (Cons i ixs)
  let ?c = "fst (faker_city v)" and ?v1 = "snd (faker_city v)"
  let ?d = "fst (faker_country ?v1)" and ?v2 = "snd (faker_country ?v1)"
  let ?row = "[(''id'', VInt (i + 1)), (''city'', VStr ?c), (''country'', VStr ?d)]"
  have row: "dict ?row = ?row" by (simp add: dict_def)
  from Cons.prems have rec: "customers_loop ixs (cs @ [?row]) ?v2 = (cs', v')"
    by (simp add: row split_beta Let_def)
  have fs: "files ?v2 = files v"
    by (simp add: faker_city_def faker_country_def files_advance)
  from Cons.IH [OF rec] obtain new where new:
    "cs' = (cs @ [?row]) @ new" "column ''id'' new = map (\<lambda>i. Some (VInt (i + 1))) ixs"
    "list_all (\<lambda>r. map fst r = [''id'', ''city'', ''country'']) new" "files v' = files ?v2"
    by auto
  have "cs' = cs @ (?row # new)" using new(1) by simp
  moreover have "column ''id'' (?row # new) = map (\<lambda>i. Some (VInt (i + 1))) (i # ixs)"
    using new(2) by (simp add: column_def)
  moreover have "list_all (\<lambda>r. map fst r = [''id'', ''city'', ''country'']) (?row # new)"
    using new(3) by simp
  moreover have "files v' = files v" using new(4) fs by simp
  ultimately show ?case by blast
qed

lemma generate_customers_Inr:
  assumes n: "1 \<le> n"
  shows "\<exists>cs v'. generate_customers n v = (Inr (), v') \<and>
           files v' = (files v)(''customer.csv'' \<mapsto>
              \<lparr>csv_fields = [''id'', ''city'', ''country''], csv_lines = map (map snd) cs\<rparr>) \<and>
           table v' ''customer.csv'' = cs \<and>
           column ''id'' cs = map (\<lambda>i. Some (VInt i)) [1..n] \<and> length cs = nat n"
proof -
  obtain cs v1 where loop: "customers_loop (range0 n) [] v = (cs, v1)"
    by (cases "customers_loop (range0 n) [] v")
  from customers_loop_eq [OF loop] have p:
    "column ''id'' cs = map (\<lambda>i. Some (VInt (i + 1))) (range0 n)"
    "list_all (\<lambda>r. map fst r = [''id'', ''city'', ''country'']) cs" "files v1 = files v"
    by auto
  have ids: "column ''id'' cs = map (\<lambda>i. Some (VInt i)) [1..n]"
    using p(1) range0_succ [of n]
    by (simp flip: map_map [of "\<lambda>i. Some (VInt i)" "\<lambda>i. i + 1", unfolded comp_def])
  have "length (column ''id'' cs) = nat n" using p(1) by (simp add: range0_def)
  then have len: "length cs = nat n" by (simp add: column_def)
  with n have ne: "cs \<noteq> []" by auto
  note wr = write_to_csv_uniform [OF ne p(2), of "''customer.csv''" v1]
  let ?v' = "v1\<lparr>files := (files v1)(''customer.csv'' \<mapsto>
              \<lparr>csv_fields = [''id'', ''city'', ''country''], csv_lines = map (map snd) cs\<rparr>)\<rparr>"
  have "generate_customers n v = (Inr (), ?v')"
    by (simp add: generate_customers_def loop wr)
  moreover have "files ?v' = (files v)(''customer.csv'' \<mapsto>
              \<lparr>csv_fields = [''id'', ''city'', ''country''], csv_lines = map (map snd) cs\<rparr>)"
    by (simp add: p(3))
  moreover have "table ?v' ''customer.csv'' = cs"
    using records_of_uniform [OF p(2)] by (simp add: table_def)
  ultimately show ?thesis using ids len by blast
qed

lemma generate_shipping_methods_eq:
  "generate_shipping_methods v =
     (Inr 4, v\<lparr>files := (files v)(''shipping_method.csv'' \<mapsto>
        \<lparr>csv_fields = [''id'', ''name''],
         csv_lines = [[VInt 1, VStr ''Standard''], [VInt 2, VStr ''Next Business Day''],
                      [VInt 3, VStr ''Saturday AM''], [VInt 4, VStr ''Saturday PM'']]\<rparr>)\<rparr>)"
  by (simp add: generate_shipping_methods_def write_list_to_csv_def write_to_csv_def
      enumerate_eq_zip dict_def dict_to_list_def dict_get_def upt_rec)

lemma generate_couriers_eq:
  "generate_couriers v =
     (Inr 3, v\<lparr>files := (files v)(''courier.csv'' \<mapsto>
        \<lparr>csv_fields = [''id'', ''name''],
         csv_lines = [[VInt 1, VStr ''Cheap & Cheerful Delivery''],
                      [VInt 2, VStr ''Speedy Parcel Delivery''],
                      [VInt 3, VStr ''Local Delivery Partners'']]\<rparr>)\<rparr>)"
  by (simp add: generate_couriers_def write_list_to_csv_def write_to_csv_def
      enumerate_eq_zip dict_def dict_to_list_def dict_get_def upt_rec)

lemma categories_loop_hierarchy:
  "categories_loop get_product_hierarchy (1, 1, 1, [], [], []) =
     (4, 7, 13,
      [[(''id'', VInt 1), (''name'', VStr ''Home & Garden'')],
       [(''id'', VInt 2), (''name'', VStr ''Electronics'')],
       [(''id'', VInt 3), (''name'', VStr ''Clothing'')]],
      [[(''id'', VInt 1), (''category_id'', VInt 1), (''name'', VStr ''Garden Furniture'')],
       [(''id'', VInt 2), (''category_id'', VInt 1), (''name'', VStr ''Home Furnishing'')],
       [(''id'', VInt 3), (''category_id'', VInt 2), (''name'', VStr ''TV'')],
       [(''id'', VInt 4), (''category_id'', VInt 2), (''name'', VStr ''Audio'')],
       [(''id'', VInt 5), (''category_id'', VInt 3), (''name'', VStr ''Menswear'')],
       [(''id'', VInt 6), (''category_id'', VInt 3), (''name'', VStr ''Womenswear'')]],
      [[(''id'', VInt 1), (''sub_category_id'', VInt 1), (''name'', VStr ''Table and chair set''), (''price'', VFloat 299.99)],
       [(''id'', VInt 2), (''sub_category_id'', VInt 1), (''name'', VStr ''Patio Heater''), (''price'', VFloat 199.99)],
       [(''id'', VInt 3), (''sub_category_id'', VInt 2), (''name'', VStr ''Curtains''), (''price'', VFloat 89.99)],
       [(''id'', VInt 4), (''sub_category_id'', VInt 2), (''name'', VStr ''Cushions''), (''price'', VFloat 19.99)],
       [(''id'', VInt 5), (''sub_category_id'', VInt 3), (''name'', VStr ''50 inch 4K TV''), (''price'', VFloat 399.99)],
       [(''id'', VInt 6), (''sub_category_id'', VInt 3), (''name'', VStr ''TV Soundbar''), (''price'', VFloat 99.99)],
       [(''id'', VInt 7), (''sub_category_id'', VInt 4), (''name'', VStr ''Portable Bluetooth Speaker''), (''price'', VFloat 49.99)],
       [(''id'', VInt 8), (''sub_category_id'', VInt 4), (''name'', VStr ''Premium Smart Speaker''), (''price'', VFloat 399.99)],
       [(''id'', VInt 9), (''sub_category_id'', VInt 5), (''name'', VStr ''Mens Jeans''), (''price'', VFloat 39.99)],
       [(''id'', VInt 10), (''sub_category_id'', VInt 5), (''name'', VStr ''Mens Shorts''), (''price'', VFloat 19.99)],
       [(''id'', VInt 11), (''sub_category_id'', VInt 6), (''name'', VStr ''Womens Jeans''), (''price'', VFloat 39.99)],
       [(''id'', VInt 12), (''sub_category_id'', VInt 6), (''name'', VStr ''Blouse''), (''price'', VFloat 24.99)]])"
  by (simp add: get_product_hierarchy_def dict_def)

lemma generate_products_eq:
  "generate_products v =
     (Inr 12, v\<lparr>files := (files v)
        (''category.csv'' \<mapsto>
           \<lparr>csv_fields = [''id'', ''name''],
            csv_lines = [[VInt 1, VStr ''Home & Garden''], [VInt 2, VStr ''Electronics''],
                         [VInt 3, VStr ''Clothing'']]\<rparr>,
         ''sub_category.csv'' \<mapsto>
           \<lparr>csv_fields = [''id'', ''category_id'', ''name''],
            csv_lines = [[VInt 1, VInt 1, VStr ''Garden Furniture''],
                         [VInt 2, VInt 1, VStr ''Home Furnishing''],
                         [VInt 3, VInt 2, VStr ''TV''],
                         [VInt 4, VInt 2, VStr ''Audio''],
                         [VInt 5, VInt 3, VStr ''Menswear''],
                         [VInt 6, VInt 3, VStr ''Womenswear'']]\<rparr>,
         ''product.csv'' \<mapsto>
           \<lparr>csv_fields = [''id'', ''sub_category_id'', ''name'', ''price''],
            csv_lines = [[VInt 1, VInt 1, VStr ''Table and chair set'', VFloat 299.99],
                         [VInt 2, VInt 1, VStr ''Patio Heater'', VFloat 199.99],
                         [VInt 3, VInt 2, VStr ''Curtains'', VFloat 89.99],
                         [VInt 4, VInt 2, VStr ''Cushions'', VFloat 19.99],
                         [VInt 5, VInt 3, VStr ''50 inch 4K TV'', VFloat 399.99],
                         [VInt 6, VInt 3, VStr ''TV Soundbar'', VFloat 99.99],
                         [VInt 7, VInt 4, VStr ''Portable Bluetooth Speaker'', VFloat 49.99],
                         [VInt 8, VInt 4, VStr ''Premium Smart Speaker'', VFloat 399.99],
                         [VInt 9, VInt 5, VStr ''Mens Jeans'', VFloat 39.99],
                         [VInt 10, VInt 5, VStr ''Mens Shorts'', VFloat 19.99],
                         [VInt 11, VInt 6, VStr ''Womens Jeans'', VFloat 39.99],
                         [VInt 12, VInt 6, VStr ''Blouse'', VFloat 24.99]]\<rparr>)\<rparr>)"
  unfolding generate_products_def categories_loop_hierarchy Let_def
  by (simp add: write_to_csv_uniform [where ks = "[''id'', ''name'']"]
      write_to_csv_uniform [where ks = "[''id'', ''category_id'', ''name'']"]
      write_to_csv_uniform [where ks = "[''id'', ''sub_category_id'', ''name'', ''price'']"])

lemma category_table:
  "table (snd (generate_products v)) ''category.csv'' =
     [[(''id'', VInt 1), (''name'', VStr ''Home & Garden'')],
      [(''id'', VInt 2), (''name'', VStr ''Electronics'')],
      [(''id'', VInt 3), (''name'', VStr ''Clothing'')]]"
  by (simp add: generate_products_eq table_def records_of_def)

lemma sub_category_table:
  "table (snd (generate_products v)) ''sub_category.csv'' =
     [[(''id'', VInt 1), (''category_id'', VInt 1), (''name'', VStr ''Garden Furniture'')],
      [(''id'', VInt 2), (''category_id'', VInt 1), (''name'', VStr ''Home Furnishing'')],
      [(''id'', VInt 3), (''category_id'', VInt 2), (''name'', VStr ''TV'')],
      [(''id'', VInt 4), (''category_id'', VInt 2), (''name'', VStr ''Audio'')],
      [(''id'', VInt 5), (''category_id'', VInt 3), (''name'', VStr ''Menswear'')],
      [(''id'', VInt 6), (''category_id'', VInt 3), (''name'', VStr ''Womenswear'')]]"
  by (simp add: generate_products_eq table_def records_of_def)

lemma product_table:
  "table (snd (generate_products v)) ''product.csv'' =
     [[(''id'', VInt 1), (''sub_category_id'', VInt 1), (''name'', VStr ''Table and chair set''), (''price'', VFloat 299.99)],
      [(''id'', VInt 2), (''sub_category_id'', VInt 1), (''name'', VStr ''Patio Heater''), (''price'', VFloat 199.99)],
      [(''id'', VInt 3), (''sub_category_id'', VInt 2), (''name'', VStr ''Curtains''), (''price'', VFloat 89.99)],
      [(''id'', VInt 4), (''sub_category_id'', VInt 2), (''name'', VStr ''Cushions''), (''price'', VFloat 19.99)],
      [(''id'', VInt 5), (''sub_category_id'', VInt 3), (''name'', VStr ''50 inch 4K TV''), (''price'', VFloat 399.99)],
      [(''id'', VInt 6), (''sub_category_id'', VInt 3), (''name'', VStr ''TV Soundbar''), (''price'', VFloat 99.99)],
      [(''id'', VInt 7), (''sub_category_id'', VInt 4), (''name'', VStr ''Portable Bluetooth Speaker''), (''price'', VFloat 49.99)],
      [(''id'', VInt 8), (''sub_category_id'', VInt 4), (''name'', VStr ''Premium Smart Speaker''), (''price'', VFloat 399.99)],
      [(''id'', VInt 9), (''sub_category_id'', VInt 5), (''name'', VStr ''Mens Jeans''), (''price'', VFloat 39.99)],
      [(''id'', VInt 10), (''sub_category_id'', VInt 5), (''name'', VStr ''Mens Shorts''), (''price'', VFloat 19.99)],
      [(''id'', VInt 11), (''sub_category_id'', VInt 6), (''name'', VStr ''Womens Jeans''), (''price'', VFloat 39.99)],
      [(''id'', VInt 12), (''sub_category_id'', VInt 6), (''name'', VStr ''Blouse''), (''price'', VFloat 24.99)]]"
  by (simp add: generate_products_eq table_def records_of_def)

lemma shipping_method_table:
  "table (snd (generate_shipping_methods v)) ''shipping_method.csv'' =
     [[(''id'', VInt 1), (''name'', VStr ''Standard'')],
      [(''id'', VInt 2), (''name'', VStr ''Next Business Day'')],
      [(''id'', VInt 3), (''name'', VStr ''Saturday AM'')],
      [(''id'', VInt 4), (''name'', VStr ''Saturday PM'')]]"
  by (simp add: generate_shipping_methods_eq table_def records_of_def)

lemma courier_table:
  "table (snd (generate_couriers v)) ''courier.csv'' =
     [[(''id'', VInt 1), (''name'', VStr ''Cheap & Cheerful Delivery'')],
      [(''id'', VInt 2), (''name'', VStr ''Speedy Parcel Delivery'')],
      [(''id'', VInt 3), (''name'', VStr ''Local Delivery Partners'')]]"
  by (simp add: generate_couriers_eq table_def records_of_def)

section \<open>The orchestrator: properties\<close>

lemma main_eq:
  "main w = generate_orders 2 12 4 3 100 3 default_start_datetime default_end_datetime 3
              (before_orders w)"
proof -
  obtain w1 where a: "generate_shipping_methods (w\<lparr>files := Map.empty\<rparr>) = (Inr 4, w1)"
    by (simp add: generate_shipping_methods_eq)
  obtain w2 where b: "generate_couriers w1 = (Inr 3, w2)"
    by (simp add: generate_couriers_eq)
  obtain w3 where c: "generate_customers 10 w2 = (Inr (), w3)"
    using generate_customers_Inr [of 10 w2] by auto
  obtain w4 where d: "generate_products w3 = (Inr 12, w4)"
    by (simp add: generate_products_eq)
  show ?thesis
    by (simp add: main_def before_orders_def a b c d default_max_quantity_def)
qed

lemma main_succeeds: "fst (main w) = Inr ()"
  unfolding main_eq
  by (rule generate_orders_succeeds)
     (simp_all add: default_start_datetime_def default_end_datetime_def datetime_max_def)

lemma table_cong: "files v' f = files v f \<Longrightarrow> table v' f = table v f"
  by (simp add: table_def)

lemma before_orders_customers:
  "column ''id'' (table (before_orders w) ''customer.csv'') = map (\<lambda>i. Some (VInt i)) [1..10] \<and>
   length (table (before_orders w) ''customer.csv'') = 10"
proof -
  let ?w2 = "snd (generate_couriers (snd (generate_shipping_methods (w\<lparr>files := Map.empty\<rparr>))))"
  from generate_customers_Inr [of 10 ?w2] obtain cs v' where c:
    "generate_customers 10 ?w2 = (Inr (), v')" "table v' ''customer.csv'' = cs"
    "column ''id'' cs = map (\<lambda>i. Some (VInt i)) [1..10]" "length cs = nat 10"
    by auto
  have "table (snd (generate_products v')) ''customer.csv'' = table v' ''customer.csv''"
    by (rule table_cong) (simp add: generate_products_eq)
  then have "table (before_orders w) ''customer.csv'' = cs"
    by (simp add: before_orders_def c(1,2))
  with c(3,4) show ?thesis by simp
qed

lemma main_Inr: "main w = (Inr (), snd (main w))"
  using main_succeeds [of w] by (cases "main w") simp

lemma main_customers:
  "column ''id'' (table (snd (main w)) ''customer.csv'') = map (\<lambda>i. Some (VInt i)) [1..10] \<and>
   length (table (snd (main w)) ''customer.csv'') = 10"
proof -
  from generate_orders_Inr [OF main_Inr [of w, unfolded main_eq]]
  have "files (snd (main w)) ''customer.csv'' = files (before_orders w) ''customer.csv''"
    by (auto simp: main_eq)
  from table_cong [OF this] before_orders_customers [of w] show ?thesis by simp
qed

lemma main_orders:
  "length (table (snd (main w)) ''order.csv'') = 100 \<and>
   list_all (order_ok 2 4 3) (table (snd (main w)) ''order.csv'') \<and>
   list_all (order_item_ok 12 3) (table (snd (main w)) ''order_item.csv'')"
proof -
  from generate_orders_Inr [OF main_Inr [of w, unfolded main_eq]]
  have p: "column ''id'' (table (snd (main w)) ''order.csv'') = map (\<lambda>i. Some (VInt i)) [1..100]"
    "list_all (order_ok 2 4 3) (table (snd (main w)) ''order.csv'')"
    "list_all (order_item_ok 12 3) (table (snd (main w)) ''order_item.csv'')"
    by (auto simp: main_eq)
  have "length (column ''id'' (table (snd (main w)) ''order.csv'')) = 100"
    unfolding p(1) by simp
  then show ?thesis using p(2,3) by (simp add: column_def)
qed

lemma int_field_in_column:
  "list_all (int_field_in k lo hi) rows \<Longrightarrow>
   set (column k rows) \<subseteq> set (map (\<lambda>i. Some (VInt i)) [lo..hi])"
  by (induction rows) (auto simp: column_def int_field_in_def split: option.splits val.splits)

lemma shipped_offset_ok_iff:
  "shipped_offset_ok r \<longleftrightarrow>
     (\<exists>p d. map_of r ''placed_timestamp'' = Some (VTime p) \<and>
            map_of r ''shipped_timestamp'' = Some (VTime (p + d * 86400000000)) \<and> 1 \<le> d \<and> d \<le> 4)"
proof -
  have *: "s \<in> set (map (\<lambda>d. p + d * 86400000000) [1..4]) \<longleftrightarrow>
             (\<exists>d. s = p + d * 86400000000 \<and> 1 \<le> d \<and> d \<le> 4)" for s p :: int
    by auto
  show ?thesis
    unfolding shipped_offset_ok_def *
    by (cases "map_of r ''placed_timestamp''"; cases "map_of r ''shipped_timestamp''")
       (auto split: val.splits)
qed

lemma dense_idsI:
  "column ''id'' t = map (\<lambda>i. Some (VInt i)) [1..n] \<Longrightarrow> length t = nat n \<Longrightarrow> 0 \<le> n \<Longrightarrow>
   dense_ids t"
  by (simp add: dense_ids_def)

lemma sample_orders_Inr:
  "generate_orders 10 12 4 3 2 3 default_start_datetime default_end_datetime 3 sample_world =
     (Inr (), snd (generate_orders 10 12 4 3 2 3 default_start_datetime default_end_datetime 3
                     sample_world))"
proof -
  have "fst (generate_orders 10 12 4 3 2 3 default_start_datetime default_end_datetime 3
               sample_world) = Inr ()"
    by (rule generate_orders_succeeds)
       (simp_all add: default_start_datetime_def default_end_datetime_def datetime_max_def)
  then show ?thesis
    by (cases "generate_orders 10 12 4 3 2 3 default_start_datetime default_end_datetime 3
                 sample_world") simp
qed

section \<open>A concrete run\<close>

text \<open>
  One order generated with the arguments \<open>main\<close> passes, from the raw draws 0, 1, 2, ...:
  the order is placed at the start of the window and shipped two days later, and its
  three items carry the identifiers 1, 2, 3; the third has the quantity 3.
\<close>

lemma generate_orders_sample_run:
  "fst (generate_orders 2 12 4 3 1 3 default_start_datetime default_end_datetime 3 sample_world)
     = Inr () \<and>
   table (snd (generate_orders 2 12 4 3 1 3 default_start_datetime default_end_datetime 3
                 sample_world)) ''order.csv'' =
     [[(''id'', VInt 1), (''customer_id'', VInt 1), (''shipping_method_id'', VInt 4),
       (''courier_id'', VInt 2), (''placed_timestamp'', VTime 63871286400000000),
       (''shipped_timestamp'', VTime 63871459200000000)]] \<and>
   table (snd (generate_orders 2 12 4 3 1 3 default_start_datetime default_end_datetime 3
                 sample_world)) ''order_item.csv'' =
     [[(''id'', VInt 1), (''order_id'', VInt 1), (''product_id'', VInt 7), (''quantity'', VInt 2)],
      [(''id'', VInt 2), (''order_id'', VInt 1), (''product_id'', VInt 9), (''quantity'', VInt 1)],
      [(''id'', VInt 3), (''order_id'', VInt 1), (''product_id'', VInt 11), (''quantity'', VInt 3)]]"
  by (simp add: generate_orders_def range0_def order_step_def date_time_between_def
      random_int_def add_days_def advance_def sample_world_def default_start_datetime_def
      default_end_datetime_def datetime_max_def Let_def upt_rec order_row_eq order_item_row_eq
      write_to_csv_def dict_to_list_def dict_get_def table_def records_of_def)

section \<open>The claims\<close>

text \<open>
  C1. In every run of \<open>main\<close> the customer table holds the ten customers 1..10, yet the
  orders only ever reference the customers 1 and 2: the bound reaching \<open>generate_orders\<close>
  as \<open>num_customers\<close> is not the number of customers generated.
\<close>

theorem main_orders_ignore_customer_count:
  "column ''id'' (table (snd (main w)) ''customer.csv'') = map (\<lambda>i. Some (VInt i)) [1..10] \<and>
   set (column ''customer_id'' (table (snd (main w)) ''order.csv''))
     \<subseteq> {Some (VInt 1), Some (VInt 2)}"
proof -
  from main_orders [of w] have "list_all (int_field_in ''customer_id'' 1 2)
      (table (snd (main w)) ''order.csv'')"
    by (auto elim!: list_all_weaken simp: order_ok_def)
  from int_field_in_column [OF this] main_customers [of w] show ?thesis
    by (simp add: upto_rec1)
qed

text \<open>
  C2. \<open>main\<close> calls \<open>generate_orders\<close> with \<open>num_customers = 2\<close>, \<open>num_products = 12\<close> (the
  value \<open>generate_products\<close> returns), \<open>num_shipping_methods = 4\<close>, \<open>num_couriers = 3\<close>,
  \<open>num_orders = 100\<close>, \<open>max_order_items = 3\<close> and the default \<open>max_quantity = 3\<close>, in the
  world the other generators leave; \<open>generate_customers\<close> returns no count. Every run
  succeeds, writes 10 customers and 100 orders, every order's \<open>customer_id\<close> lies in 1..2
  and every order item's \<open>quantity\<close> in 1..3.
\<close>

theorem main_generate_orders_call:
  "main w = generate_orders 2 12 4 3 100 3 default_start_datetime default_end_datetime 3
              (before_orders w) \<and>
   default_max_quantity = 3 \<and>
   fst (generate_shipping_methods v) = Inr 4 \<and> fst (generate_couriers v) = Inr 3 \<and>
   fst (generate_customers 10 v) = Inr () \<and> fst (generate_products v) = Inr 12 \<and>
   fst (main w) = Inr () \<and>
   length (table (snd (main w)) ''customer.csv'') = 10 \<and>
   length (table (snd (main w)) ''order.csv'') = 100 \<and>
   list_all (int_field_in ''customer_id'' 1 2) (table (snd (main w)) ''order.csv'') \<and>
   list_all (int_field_in ''quantity'' 1 3) (table (snd (main w)) ''order_item.csv'')"
proof -
  have c: "fst (generate_customers 10 v) = Inr ()"
    using generate_customers_Inr [of 10 v] by auto
  have o: "list_all (int_field_in ''customer_id'' 1 2) (table (snd (main w)) ''order.csv'')"
    using main_orders [of w] by (auto elim!: list_all_weaken simp: order_ok_def)
  have i: "list_all (int_field_in ''quantity'' 1 3) (table (snd (main w)) ''order_item.csv'')"
    using main_orders [of w] by (auto elim!: list_all_weaken simp: order_item_ok_def)
  show ?thesis
    using main_eq [of w] main_succeeds [of w] main_customers [of w] main_orders [of w] c o i
    by (simp add: default_max_quantity_def generate_shipping_methods_eq generate_couriers_eq
        generate_products_eq)
qed




text \<open>
  C4. In every table a generator writes, the \<open>id\<close> column reads 1, 2, ..., N down the N
  rows of the table: shipping methods (4 rows), couriers (3), customers (one per requested
  customer), categories (3), sub-categories (6), products (12), orders (one per requested
  order) and order items, whose identifiers run on across the orders, at least one per
  order. The customer, order and order-item tables are written when at least one row is
  requested and, for orders, when the call returns normally.
\<close>

theorem table_ids_dense:
  "dense_ids (table (snd (generate_shipping_methods w)) ''shipping_method.csv'') \<and>
   length (table (snd (generate_shipping_methods w)) ''shipping_method.csv'') = 4 \<and>
   dense_ids (table (snd (generate_couriers w)) ''courier.csv'') \<and>
   length (table (snd (generate_couriers w)) ''courier.csv'') = 3 \<and>
   (1 \<le> n \<longrightarrow>
      dense_ids (table (snd (generate_customers n w)) ''customer.csv'') \<and>
      length (table (snd (generate_customers n w)) ''customer.csv'') = nat n) \<and>
   dense_ids (table (snd (generate_products w)) ''category.csv'') \<and>
   length (table (snd (generate_products w)) ''category.csv'') = 3 \<and>
   dense_ids (table (snd (generate_products w)) ''sub_category.csv'') \<and>
   length (table (snd (generate_products w)) ''sub_category.csv'') = 6 \<and>
   dense_ids (table (snd (generate_products w)) ''product.csv'') \<and>
   length (table (snd (generate_products w)) ''product.csv'') = 12 \<and>
   (1 \<le> num_orders \<and>
    generate_orders nc np nsm ncr num_orders moi sd ed mq w = (Inr (), w') \<longrightarrow>
      dense_ids (table w' ''order.csv'') \<and>
      length (table w' ''order.csv'') = nat num_orders \<and>
      dense_ids (table w' ''order_item.csv'') \<and>
      nat num_orders \<le> length (table w' ''order_item.csv''))"
proof -
  have fixed:
    "dense_ids (table (snd (generate_shipping_methods w)) ''shipping_method.csv'')"
    "length (table (snd (generate_shipping_methods w)) ''shipping_method.csv'') = 4"
    "dense_ids (table (snd (generate_couriers w)) ''courier.csv'')"
    "length (table (snd (generate_couriers w)) ''courier.csv'') = 3"
    by (simp_all add: shipping_method_table courier_table dense_ids_def column_def upto_rec1)
  have catalog:
    "dense_ids (table (snd (generate_products w)) ''category.csv'')"
    "length (table (snd (generate_products w)) ''category.csv'') = 3"
    "dense_ids (table (snd (generate_products w)) ''sub_category.csv'')"
    "length (table (snd (generate_products w)) ''sub_category.csv'') = 6"
    "dense_ids (table (snd (generate_products w)) ''product.csv'')"
    "length (table (snd (generate_products w)) ''product.csv'') = 12"
    by (simp_all add: category_table sub_category_table product_table dense_ids_def column_def
        upto_rec1)
  have customers:
    "dense_ids (table (snd (generate_customers n w)) ''customer.csv'') \<and>
     length (table (snd (generate_customers n w)) ''customer.csv'') = nat n" if n: "1 \<le> n"
  proof -
    from generate_customers_Inr [OF n, of w] obtain cs v' where c:
      "generate_customers n w = (Inr (), v')" "table v' ''customer.csv'' = cs"
      "column ''id'' cs = map (\<lambda>i. Some (VInt i)) [1..n]" "length cs = nat n"
      by auto
    from dense_idsI [OF c(3,4)] n c(1,2,4) show ?thesis by simp
  qed
  have orders:
    "dense_ids (table w' ''order.csv'') \<and> length (table w' ''order.csv'') = nat num_orders \<and>
     dense_ids (table w' ''order_item.csv'') \<and>
     nat num_orders \<le> length (table w' ''order_item.csv'')"
    if a: "1 \<le> num_orders \<and>
           generate_orders nc np nsm ncr num_orders moi sd ed mq w = (Inr (), w')"
  proof -
    from a have num: "1 \<le> num_orders"
      and ok: "generate_orders nc np nsm ncr num_orders moi sd ed mq w = (Inr (), w')"
      by simp_all
    from generate_orders_Inr [OF ok num] have p:
      "column ''id'' (table w' ''order.csv'') = map (\<lambda>i. Some (VInt i)) [1..num_orders]"
      "column ''id'' (table w' ''order_item.csv'') =
         map (\<lambda>i. Some (VInt i)) [1..int (length (table w' ''order_item.csv''))]"
      "nat num_orders \<le> length (table w' ''order_item.csv'')"
      by auto
    have "length (column ''id'' (table w' ''order.csv'')) = nat num_orders"
      unfolding p(1) by simp
    then have len: "length (table w' ''order.csv'') = nat num_orders" by (simp add: column_def)
    from dense_idsI [OF p(1) len] num p(2,3) len show ?thesis
      by (simp add: dense_ids_def)
  qed
  from fixed catalog customers orders show ?thesis by blast
qed

theorem table_ids_dense_witness:
  "dense_ids (table (snd (generate_customers 10 sample_world)) ''customer.csv'') \<and>
   length (table (snd (generate_customers 10 sample_world)) ''customer.csv'') = 10 \<and>
   dense_ids (table (snd (generate_orders 10 12 4 3 2 3 default_start_datetime
                            default_end_datetime 3 sample_world)) ''order.csv'') \<and>
   length (table (snd (generate_orders 10 12 4 3 2 3 default_start_datetime
                         default_end_datetime 3 sample_world)) ''order.csv'') = 2 \<and>
   dense_ids (table (snd (generate_orders 10 12 4 3 2 3 default_start_datetime
                            default_end_datetime 3 sample_world)) ''order_item.csv'') \<and>
   2 \<le> length (table (snd (generate_orders 10 12 4 3 2 3 default_start_datetime
                              default_end_datetime 3 sample_world)) ''order_item.csv'')"
  using table_ids_dense [of sample_world 10 2 10 12 4 3 3 default_start_datetime
      default_end_datetime 3
      "snd (generate_orders 10 12 4 3 2 3 default_start_datetime default_end_datetime 3
              sample_world)"]
    sample_orders_Inr
  by simp

text \<open>
  C5. In the tables \<open>generate_products\<close> writes, every \<open>category_id\<close> of a sub-category is
  the \<open>id\<close> of a written category and every \<open>sub_category_id\<close> of a product is the \<open>id\<close> of
  a written sub-category; each foreign key lies between 1 and the number of rows of the
  table it refers to.
\<close>

theorem catalog_foreign_keys:
  "fst (generate_products w) = Inr 12 \<and>
   set (column ''category_id'' (table (snd (generate_products w)) ''sub_category.csv''))
     \<subseteq> set (column ''id'' (table (snd (generate_products w)) ''category.csv'')) \<and>
   set (column ''sub_category_id'' (table (snd (generate_products w)) ''product.csv''))
     \<subseteq> set (column ''id'' (table (snd (generate_products w)) ''sub_category.csv'')) \<and>
   list_all (int_field_in ''category_id'' 1
               (int (length (table (snd (generate_products w)) ''category.csv''))))
     (table (snd (generate_products w)) ''sub_category.csv'') \<and>
   list_all (int_field_in ''sub_category_id'' 1
               (int (length (table (snd (generate_products w)) ''sub_category.csv''))))
     (table (snd (generate_products w)) ''product.csv'')"
proof -
  have "fst (generate_products w) = Inr 12" by (simp add: generate_products_eq)
  then show ?thesis
    unfolding category_table sub_category_table product_table
    by (simp add: column_def int_field_in_def)
qed

text \<open>
  C6. When \<open>generate_orders\<close> returns normally for at least one order, every order it
  wrote has a \<open>shipped_timestamp\<close> equal to its \<open>placed_timestamp\<close> plus \<open>d\<close> whole days
  for some \<open>d\<close> of 1..4, hence strictly later.
\<close>

theorem shipped_after_placed:
  assumes "generate_orders nc np nsm ncr num_orders moi sd ed mq w = (Inr (), w')"
    and "1 \<le> num_orders"
  shows "length (table w' ''order.csv'') = nat num_orders \<and>
         (\<forall>r \<in> set (table w' ''order.csv'').
            \<exists>p d. map_of r ''placed_timestamp'' = Some (VTime p) \<and>
                  map_of r ''shipped_timestamp'' = Some (VTime (p + d * 86400000000)) \<and>
                  1 \<le> d \<and> d \<le> 4 \<and> p < p + d * 86400000000)"
proof -
  from generate_orders_Inr [OF assms] have p:
    "column ''id'' (table w' ''order.csv'') = map (\<lambda>i. Some (VInt i)) [1..num_orders]"
    "list_all (order_ok nc nsm ncr) (table w' ''order.csv'')"
    by auto
  have "length (column ''id'' (table w' ''order.csv'')) = nat num_orders"
    unfolding p(1) by simp
  then have len: "length (table w' ''order.csv'') = nat num_orders" by (simp add: column_def)
  have "\<exists>p d. map_of r ''placed_timestamp'' = Some (VTime p) \<and>
              map_of r ''shipped_timestamp'' = Some (VTime (p + d * 86400000000)) \<and>
              1 \<le> d \<and> d \<le> 4 \<and> p < p + d * 86400000000"
    if "r \<in> set (table w' ''order.csv'')" for r
  proof -
    from p(2) that have "shipped_offset_ok r" by (auto simp: list_all_iff order_ok_def)
    then obtain p d where
      "map_of r ''placed_timestamp'' = Some (VTime p)"
      "map_of r ''shipped_timestamp'' = Some (VTime (p + d * 86400000000))" "1 \<le> d" "d \<le> 4"
      unfolding shipped_offset_ok_iff by blast
    moreover from this have "p < p + d * 86400000000" by simp
    ultimately show ?thesis by blast
  qed
  with len show ?thesis by blast
qed

theorem shipped_after_placed_witness:
  "length (table (snd (generate_orders 10 12 4 3 2 3 default_start_datetime
                         default_end_datetime 3 sample_world)) ''order.csv'') = 2 \<and>
   list_all shipped_offset_ok
     (table (snd (generate_orders 10 12 4 3 2 3 default_start_datetime
                    default_end_datetime 3 sample_world)) ''order.csv'')"
proof -
  have "list_all shipped_offset_ok t"
    if "\<forall>r \<in> set t. \<exists>p d. map_of r ''placed_timestamp'' = Some (VTime p) \<and>
                  map_of r ''shipped_timestamp'' = Some (VTime (p + d * 86400000000)) \<and>
                  1 \<le> d \<and> d \<le> 4 \<and> p < p + d * 86400000000" for t
    using that unfolding list_all_iff shipped_offset_ok_iff by blast
  with shipped_after_placed [OF sample_orders_Inr] show ?thesis by simp
qed

text \<open>
  C7. When \<open>generate_orders\<close> returns normally for \<open>n \<ge> 1\<close> orders, the orders written
  carry the identifiers 1..n, and each of these is the \<open>order_id\<close> of at least one order
  item written; a normal return for a positive \<open>n\<close> is only possible with
  \<open>max_order_items \<ge> 1\<close>.
\<close>

theorem every_order_has_item:
  assumes "generate_orders nc np nsm ncr n k sd ed mq w = (Inr (), w')" and "1 \<le> n"
  shows "column ''id'' (table w' ''order.csv'') = map (\<lambda>i. Some (VInt i)) [1..n] \<and>
         (\<forall>i \<in> {1..n}. \<exists>item \<in> set (table w' ''order_item.csv'').
            map_of item ''order_id'' = Some (VInt i)) \<and>
         nat n \<le> length (table w' ''order_item.csv'')"
proof -
  from generate_orders_Inr [OF assms] have p:
    "column ''id'' (table w' ''order.csv'') = map (\<lambda>i. Some (VInt i)) [1..n]"
    "set (column ''order_id'' (table w' ''order_item.csv'')) =
       set (column ''id'' (table w' ''order.csv''))"
    "nat n \<le> length (table w' ''order_item.csv'')"
    by auto
  have "\<exists>item \<in> set (table w' ''order_item.csv''). map_of item ''order_id'' = Some (VInt i)"
    if "i \<in> {1..n}" for i
  proof -
    from that have "Some (VInt i) \<in> set (map (\<lambda>i. Some (VInt i)) [1..n])" by simp
    then have "Some (VInt i) \<in> set (column ''order_id'' (table w' ''order_item.csv''))"
      unfolding p(2) p(1) .
    then show ?thesis by (auto simp: column_def)
  qed
  with p(1,3) show ?thesis by blast
qed

theorem every_order_has_item_witness:
  "set (map (\<lambda>i. Some (VInt i)) [1..2])
     \<subseteq> set (column ''order_id''
              (table (snd (generate_orders 10 12 4 3 2 3 default_start_datetime
                             default_end_datetime 3 sample_world)) ''order_item.csv'')) \<and>
   2 \<le> length (table (snd (generate_orders 10 12 4 3 2 3 default_start_datetime
                              default_end_datetime 3 sample_world)) ''order_item.csv'')"
proof -
  let ?T = "table (snd (generate_orders 10 12 4 3 2 3 default_start_datetime
                          default_end_datetime 3 sample_world)) ''order_item.csv''"
  from every_order_has_item [OF sample_orders_Inr]
  have a: "\<forall>i \<in> {1..2}. \<exists>item \<in> set ?T. map_of item ''order_id'' = Some (VInt i)"
    and b: "2 \<le> length ?T"
    by simp_all
  have "set (map (\<lambda>i. Some (VInt i)) [1..2]) \<subseteq> set (column ''order_id'' ?T)"
  proof
    fix x
    assume "x \<in> set (map (\<lambda>i. Some (VInt i)) [1..2])"
    then obtain i where "i \<in> {1..2}" "x = Some (VInt i)" by auto
    with a obtain item where "item \<in> set ?T" "map_of item ''order_id'' = x" by force
    then show "x \<in> set (column ''order_id'' ?T)" by (force simp: column_def)
  qed
  with b show ?thesis by simp
qed

text \<open>
  C8. \<open>generate_products\<close> writes 3 category rows, 6 sub-category rows and 12 product
  rows and returns 12; the one product row named "Table and chair set" has the price
  299.99 and the \<open>sub_category_id\<close> 1.
\<close>

theorem generate_products_static_hierarchy:
  "fst (generate_products w) = Inr 12 \<and>
   length (table (snd (generate_products w)) ''category.csv'') = 3 \<and>
   length (table (snd (generate_products w)) ''sub_category.csv'') = 6 \<and>
   length (table (snd (generate_products w)) ''product.csv'') = 12 \<and>
   filter (\<lambda>r. map_of r ''name'' = Some (VStr ''Table and chair set''))
     (table (snd (generate_products w)) ''product.csv'') =
     [[(''id'', VInt 1), (''sub_category_id'', VInt 1), (''name'', VStr ''Table and chair set''),
       (''price'', VFloat 299.99)]]"
proof -
  have "fst (generate_products w) = Inr 12" by (simp add: generate_products_eq)
  then show ?thesis
    unfolding category_table sub_category_table product_table by simp
qed

text \<open>
  C9. \<open>generate_shipping_methods\<close> returns 4 and stores under \<open>shipping_method.csv\<close> the
  header \<open>id,name\<close> followed by exactly the four lines 1 Standard, 2 Next Business Day,
  3 Saturday AM, 4 Saturday PM, in that order; nothing else changes.
\<close>

theorem generate_shipping_methods_file:
  "generate_shipping_methods w =
     (Inr 4, w\<lparr>files := (files w)(''shipping_method.csv'' \<mapsto>
        \<lparr>csv_fields = [''id'', ''name''],
         csv_lines = [[VInt 1, VStr ''Standard''], [VInt 2, VStr ''Next Business Day''],
                      [VInt 3, VStr ''Saturday AM''], [VInt 4, VStr ''Saturday PM'']]\<rparr>)\<rparr>)"
  by (rule generate_shipping_methods_eq)

text \<open>
  C10. For every destination name, \<open>write_to_csv\<close> called with an empty record sequence
  returns without error and leaves the world as it was: no file is created, and a file
  already stored under that name is not overwritten.
\<close>

theorem write_to_csv_empty_is_noop: "write_to_csv file_name [] w = (Inr (), w)"
  by (simp add: write_to_csv_def)

end
